theory Spec2Isabelle
  imports Main "HOL-Library.Sublist"
begin

section \<open>JavaScript strings\<close>

text \<open>
  A JavaScript string is a sequence of UTF-16 code units; \<open>length\<close> counts code units and
  \<open>===\<close> on strings is equality of the sequences. The model uses HOL's \<^typ>\<open>string\<close>
  (a list of 8-bit characters) and reads a character as the code unit of the same number,
  so it covers exactly the strings whose code units are below 256 (ASCII and the Latin-1
  supplement). On this range the three built-ins used by the component are closed and are
  given by the ECMAScript definitions below.
\<close>

definition isWhiteSpace :: "char \<Rightarrow> bool" where
  \<comment> \<open>ECMAScript WhiteSpace and LineTerminator below U+0100:
      TAB, LF, VT, FF, CR, SPACE, NO-BREAK SPACE.\<close>
  "isWhiteSpace c \<longleftrightarrow> c \<in> set [CHR 0x09, CHR 0x0A, CHR 0x0B, CHR 0x0C, CHR 0x0D, CHR 0x20, CHR 0xA0]"

definition trim :: "string \<Rightarrow> string" where
  \<comment> \<open>\<open>String.prototype.trim\<close>: white space removed from both ends.\<close>
  "trim s = rev (dropWhile isWhiteSpace (rev (dropWhile isWhiteSpace s)))"

definition toLowerCase_unit :: "char \<Rightarrow> char" where
  \<comment> \<open>Unicode lower-case mapping below U+0100: A..Z, and U+00C0..U+00DE without the
      multiplication sign U+00D7, move up by 32; everything else is kept.\<close>
  "toLowerCase_unit c =
     (let n = (of_char c :: nat) in
      if (65 \<le> n \<and> n \<le> 90) \<or> (192 \<le> n \<and> n \<le> 222 \<and> n \<noteq> 215)
      then char_of (n + 32) else c)"

definition toLowerCase :: "string \<Rightarrow> string" where
  \<comment> \<open>\<open>String.prototype.toLowerCase\<close>.\<close>
  "toLowerCase s = map toLowerCase_unit s"

definition includes_js :: "string \<Rightarrow> string \<Rightarrow> bool" where
  \<comment> \<open>\<open>s.includes(searchString)\<close>: \<open>searchString\<close> occurs in \<open>s\<close> as a contiguous run.\<close>
  "includes_js s searchString \<longleftrightarrow> sublist searchString s"

section \<open>The component\<close>

text \<open>
  Modelled from the spec: the interface \<open>Logs\<close> (imported from \<open>models/logs\<close>) is not
  among the sources. The specification describes a log record as an opaque record with at
  least the free-text field \<open>raw_log\<close>, and the component reads no other field (line 55).
  Whatever else an entry carries is the extension part of the record, so the component is
  modelled over the record scheme \<open>'z Logs_scheme\<close>.
\<close>

record Logs =
  raw_log :: string

text \<open>
  The fields of \<open>LogsComponent\<close> (lines 18 to 23). \<open>searchForm\<close> is the form control whose
  value stream feeds \<open>onSearch\<close>; no method reads or writes it after construction, and it
  is represented by the list of values handed to \<open>onSearch\<close>. Arrays are only ever
  assigned whole or built anew by \<open>filter\<close>, never updated in place, so the two list
  fields are modelled as values although lines 39, 40 and 46 make them share one array.
\<close>

record 'l LogsComponent =
  title :: string
  isLoading :: bool
  all_logs :: "'l list"
  searchQuery :: string
  filtered_logs :: "'l list"

definition LogsComponent_new :: "'l LogsComponent" where
  \<comment> \<open>The field initialisers.\<close>
  "LogsComponent_new =
     \<lparr>title = ''Logs'', isLoading = True, all_logs = [], searchQuery = [], filtered_logs = []\<rparr>"

definition ngOnInit :: "'l LogsComponent \<Rightarrow> 'l LogsComponent" where
  \<comment> \<open>Line 37, before the fetch is answered.\<close>
  "ngOnInit s = s\<lparr>isLoading := True\<rparr>"

definition getLogs_next :: "'l LogsComponent \<Rightarrow> 'l list \<Rightarrow> 'l LogsComponent" where
  \<comment> \<open>The callback subscribed to \<open>getLogs()\<close> (lines 38 to 42), run when the fetch
      delivers \<open>logs\<close>.\<close>
  "getLogs_next s logs = s\<lparr>all_logs := logs, filtered_logs := logs, isLoading := False\<rparr>"

definition onSearch :: "('z Logs_scheme) LogsComponent \<Rightarrow> string \<Rightarrow> ('z Logs_scheme) LogsComponent" where
  \<comment> \<open>Lines 44 to 57. Both \<open>return\<close> statements leave every other field as it was.\<close>
  "onSearch s query =
     (if length query < 3 then s\<lparr>filtered_logs := all_logs s\<rparr>
      else if trim query = searchQuery s then s
      else
        (let s' = s\<lparr>searchQuery := query\<rparr> in
         s'\<lparr>filtered_logs :=
              filter (\<lambda>log. includes_js (toLowerCase (raw_log log)) (toLowerCase (searchQuery s')))
                (all_logs s')\<rparr>))"

definition onSearch_default :: "('z Logs_scheme) LogsComponent \<Rightarrow> ('z Logs_scheme) LogsComponent" where
  \<comment> \<open>The call without an argument: the parameter default \<open>''\<close> of line 44.\<close>
  "onSearch_default s = onSearch s []"

definition distinctUntilChanged :: "string list \<Rightarrow> string list" where
  \<comment> \<open>The operator of line 29, on the values that come through \<open>debounceTime\<close> (which
      drops values by timing and is not modelled): a value equal to the one just before
      it is dropped.\<close>
  "distinctUntilChanged vs = remdups_adj vs"

definition valueChanges :: "('z Logs_scheme) LogsComponent \<Rightarrow> string list \<Rightarrow> ('z Logs_scheme) LogsComponent" where
  \<comment> \<open>The subscription of lines 26 to 33: \<open>onSearch\<close> is called on each value that passes
      \<open>distinctUntilChanged\<close>, in order.\<close>
  "valueChanges s vs = foldl onSearch s (distinctUntilChanged vs)"

definition onSearch_recompute :: "('z Logs_scheme) LogsComponent \<Rightarrow> string \<Rightarrow> ('z Logs_scheme) LogsComponent" where
  \<comment> \<open>The reference of the refinement claim, following the specification's words: the
      same as \<open>onSearch\<close> but without the equality test of line 49, so that every query
      that passes the length test recomputes the filter from \<open>all_logs\<close>.\<close>
  "onSearch_recompute s query =
     (if length query < 3 then s\<lparr>filtered_logs := all_logs s\<rparr>
      else
        (let s' = s\<lparr>searchQuery := query\<rparr> in
         s'\<lparr>filtered_logs :=
              filter (\<lambda>log. includes_js (toLowerCase (raw_log log)) (toLowerCase (searchQuery s')))
                (all_logs s')\<rparr>))"

text \<open>The log list of the specification's example scenarios, loaded into a new component.\<close>

abbreviation scenario_logs :: "Logs list" where
  "scenario_logs \<equiv>
     [\<lparr>raw_log = ''INFO start''\<rparr>, \<lparr>raw_log = ''ERROR disk full''\<rparr>, \<lparr>raw_log = ''INFO stop''\<rparr>]"

abbreviation scenario :: "Logs LogsComponent" where
  "scenario \<equiv> getLogs_next (ngOnInit LogsComponent_new) scenario_logs"

text \<open>The one-entry lists of the specification's other examples, loaded likewise.\<close>

abbreviation errorFoo_component :: "Logs LogsComponent" where
  "errorFoo_component \<equiv> getLogs_next (ngOnInit LogsComponent_new) [\<lparr>raw_log = ''ErrorFoo''\<rparr>]"

abbreviation xabc_component :: "Logs LogsComponent" where
  "xabc_component \<equiv> getLogs_next (ngOnInit LogsComponent_new) [\<lparr>raw_log = ''xabc''\<rparr>]"

section \<open>Facts about the string operations\<close>

lemma length_toLowerCase: "length (toLowerCase s) = length s"
  by (simp add: toLowerCase_def)

lemma toLowerCase_unit_idem: "toLowerCase_unit (toLowerCase_unit c) = toLowerCase_unit c"
  by (auto simp: toLowerCase_unit_def Let_def)

lemma toLowerCase_idem: "toLowerCase (toLowerCase s) = toLowerCase s"
  by (simp add: toLowerCase_def toLowerCase_unit_idem)

lemma length_trim_le: "length (trim s) \<le> length s"
proof -
  have "length (trim s) \<le> length (dropWhile isWhiteSpace s)"
    unfolding trim_def using length_dropWhile_le [of isWhiteSpace "rev (dropWhile isWhiteSpace s)"]
    by simp
  also have "\<dots> \<le> length s"
    by (rule length_dropWhile_le)
  finally show ?thesis .
qed

lemma isWhiteSpace_toLowerCase_unit: "isWhiteSpace (toLowerCase_unit c) = isWhiteSpace c"
proof (cases "isWhiteSpace c")
  case True
  then have "toLowerCase_unit c = c"
    by (auto simp: isWhiteSpace_def toLowerCase_unit_def)
  with True show ?thesis
    by simp
next
  case False
  have "\<not> isWhiteSpace (toLowerCase_unit c)"
  proof (cases "toLowerCase_unit c = c")
    case True
    with False show ?thesis
      by simp
  next
    case False
    then have "97 \<le> (of_char (toLowerCase_unit c) :: nat)"
      by (auto simp: toLowerCase_unit_def Let_def split: if_splits)
    moreover have "(of_char (toLowerCase_unit c) :: nat) \<noteq> 160"
      using False by (auto simp: toLowerCase_unit_def Let_def split: if_splits)
    ultimately show ?thesis
      by (auto simp: isWhiteSpace_def)
  qed
  with False show ?thesis
    by simp
qed

lemma dropWhile_toLowerCase:
  "dropWhile isWhiteSpace (toLowerCase s) = toLowerCase (dropWhile isWhiteSpace s)"
  by (induction s) (simp_all add: toLowerCase_def isWhiteSpace_toLowerCase_unit)

lemma trim_toLowerCase: "trim (toLowerCase s) = toLowerCase (trim s)"
proof -
  have rev_low: "rev (toLowerCase u) = toLowerCase (rev u)" for u
    by (simp add: toLowerCase_def rev_map)
  show ?thesis
    by (simp add: trim_def dropWhile_toLowerCase rev_low)
qed

lemma trim_toLowerCase_Nil: "trim (toLowerCase s) = [] \<longleftrightarrow> trim s = []"
proof -
  have "toLowerCase u = [] \<longleftrightarrow> u = []" for u
    by (simp add: toLowerCase_def)
  then show ?thesis
    by (simp only: trim_toLowerCase)
qed

lemma includes_js_iff: "includes_js s t \<longleftrightarrow> (\<exists>ps ss. s = ps @ t @ ss)"
  by (simp add: includes_js_def sublist_def)

section \<open>The three branches of \<open>onSearch\<close>\<close>

lemma onSearch_short:
  "length q < 3 \<Longrightarrow> onSearch s q = s\<lparr>filtered_logs := all_logs s\<rparr>"
  by (simp add: onSearch_def)

lemma onSearch_same:
  "3 \<le> length q \<Longrightarrow> trim q = searchQuery s \<Longrightarrow> onSearch s q = s"
  by (simp add: onSearch_def)

lemma onSearch_new:
  "3 \<le> length q \<Longrightarrow> trim q \<noteq> searchQuery s \<Longrightarrow>
   onSearch s q =
     s\<lparr>searchQuery := q,
       filtered_logs :=
         filter (\<lambda>log. includes_js (toLowerCase (raw_log log)) (toLowerCase q)) (all_logs s)\<rparr>"
  by (simp add: onSearch_def Let_def)

lemma onSearch_all_logs: "all_logs (onSearch s q) = all_logs s"
  by (simp add: onSearch_def Let_def)

lemma foldl_onSearch_all_logs: "all_logs (foldl onSearch s qs) = all_logs s"
  by (induction qs arbitrary: s) (simp_all add: onSearch_all_logs)

lemma onSearch_twice: "onSearch (onSearch s q) q = onSearch s q"
  by (simp add: onSearch_def Let_def)

lemma onSearch_keeps_subseq:
  assumes "subseq (filtered_logs s) (all_logs s)"
  shows "subseq (filtered_logs (onSearch s q)) (all_logs (onSearch s q))"
  using assms by (simp add: onSearch_def Let_def)

lemma foldl_onSearch_subseq:
  "subseq (filtered_logs s) (all_logs s) \<Longrightarrow>
   subseq (filtered_logs (foldl onSearch s qs)) (all_logs (foldl onSearch s qs))"
proof (induction qs arbitrary: s)
  case Nil
  then show ?case by simp
next
  case (Cons q qs)
  have "subseq (filtered_logs (onSearch s q)) (all_logs (onSearch s q))"
    using Cons.prems by (rule onSearch_keeps_subseq)
  then show ?case
    using Cons.IH [of "onSearch s q"] by simp
qed

lemma onSearch_searchQuery_inv:
  assumes "searchQuery s = [] \<or> 3 \<le> length (searchQuery s)"
  shows "searchQuery (onSearch s q) = [] \<or> 3 \<le> length (searchQuery (onSearch s q))"
  using assms by (auto simp: onSearch_def Let_def)

lemma foldl_onSearch_searchQuery_inv:
  "searchQuery s = [] \<or> 3 \<le> length (searchQuery s) \<Longrightarrow>
   searchQuery (foldl onSearch s qs) = [] \<or> 3 \<le> length (searchQuery (foldl onSearch s qs))"
proof (induction qs arbitrary: s)
  case Nil
  then show ?case by simp
next
  case (Cons q qs)
  from Cons.prems
  have "searchQuery (onSearch s q) = [] \<or> 3 \<le> length (searchQuery (onSearch s q))"
    by (rule onSearch_searchQuery_inv)
  then show ?case
    using Cons.IH [of "onSearch s q"] by simp
qed

section \<open>The short-query branch\<close>

text \<open>
  The length test of line 45 reads the query as it was entered. A query of three or more
  code units whose trimmed length is below three is therefore not short for the code: the
  query \<open>in\<close> followed by one space, on the example logs, is taken as a new query and
  filters every entry out.
\<close>

theorem onSearch_trimmed_short_counterexample:
  "length (trim ''in '') < 3 \<and>
   filtered_logs (onSearch scenario ''in '') \<noteq> all_logs scenario"
  by code_simp

text \<open>
  Claim C1, amended: for every component state and every query whose length as entered
  (not trimmed) is less than 3, the empty string included, \<open>onSearch\<close> leaves
  \<open>filtered_logs\<close> equal to the full list \<open>all_logs\<close>.
\<close>

theorem onSearch_short_query:
  assumes "length q < 3"
  shows "filtered_logs (onSearch s q) = all_logs s"
  using assms by (simp add: onSearch_short)

theorem onSearch_short_query_witness:
  "length ''in'' < 3 \<and> length ([] :: string) < 3 \<and>
   filtered_logs (onSearch scenario ''in'') = scenario_logs \<and>
   filtered_logs (onSearch scenario []) = scenario_logs"
  using onSearch_short_query [of "''in''" scenario] onSearch_short_query [of "[]" scenario]
  by (simp add: getLogs_next_def)

section \<open>The recomputing branch\<close>

text \<open>
  Claim C2: for every state and every query that passes the length test (three code units
  or more as entered, which holds whenever the trimmed query has three or more, by
  \<open>length_trim_le\<close>) and whose trimmed form differs from the stored query, \<open>onSearch\<close>
  leaves in \<open>filtered_logs\<close> exactly the entries of \<open>all_logs\<close> whose lower-cased
  \<open>raw_log\<close> contains the lower-cased query as a contiguous run, in the order of
  \<open>all_logs\<close>; in particular the query \<open>error\<close> on the three example logs keeps the
  single entry \<open>ERROR disk full\<close>.
\<close>

theorem onSearch_recomputes:
  "(3 \<le> length q \<longrightarrow> trim q \<noteq> searchQuery s \<longrightarrow>
      filtered_logs (onSearch s q) =
        filter (\<lambda>r. \<exists>ps ss. toLowerCase (raw_log r) = ps @ toLowerCase q @ ss) (all_logs s)) \<and>
   filtered_logs (onSearch scenario ''error'') = [\<lparr>raw_log = ''ERROR disk full''\<rparr>]"
proof -
  have "filtered_logs (onSearch s q) =
        filter (\<lambda>r. \<exists>ps ss. toLowerCase (raw_log r) = ps @ toLowerCase q @ ss) (all_logs s)"
    if "3 \<le> length q" and "trim q \<noteq> searchQuery s"
    using that by (simp add: onSearch_new includes_js_iff)
  moreover have "filtered_logs (onSearch scenario ''error'') = [\<lparr>raw_log = ''ERROR disk full''\<rparr>]"
    by code_simp
  ultimately show ?thesis
    by simp
qed

theorem onSearch_recomputes_witness:
  "3 \<le> length ''INFO'' \<and> trim ''INFO'' \<noteq> searchQuery scenario \<and>
   filtered_logs (onSearch scenario ''INFO'') =
     [\<lparr>raw_log = ''INFO start''\<rparr>, \<lparr>raw_log = ''INFO stop''\<rparr>]"
proof -
  have len: "3 \<le> length ''INFO''"
    by simp
  have new: "trim ''INFO'' \<noteq> searchQuery scenario"
    by code_simp
  have "filtered_logs (onSearch scenario ''INFO'') =
        filter (\<lambda>r. \<exists>ps ss. toLowerCase (raw_log r) = ps @ toLowerCase ''INFO'' @ ss)
          (all_logs scenario)"
    using onSearch_recomputes [of "''INFO''" scenario] len new by blast
  also have "\<dots> =
        filter (\<lambda>r. includes_js (toLowerCase (raw_log r)) (toLowerCase ''INFO'')) (all_logs scenario)"
    by (simp add: includes_js_iff)
  also have "\<dots> = [\<lparr>raw_log = ''INFO start''\<rparr>, \<lparr>raw_log = ''INFO stop''\<rparr>]"
    by code_simp
  finally show ?thesis
    using len new by simp
qed

section \<open>The filtered list is drawn from the loaded list\<close>

text \<open>
  Claim C3: after the load handler has stored \<open>logs\<close> (whatever the state before), and
  after any sequence of \<open>onSearch\<close> calls that follows, \<open>all_logs\<close> is still \<open>logs\<close> and
  \<open>filtered_logs\<close> is a subsequence of it: its entries appear in \<open>logs\<close> in the same
  relative order, and none of them is absent from \<open>logs\<close>.
\<close>

theorem filtered_logs_subseq:
  "all_logs (foldl onSearch (getLogs_next s logs) qs) = logs \<and>
   subseq (filtered_logs (foldl onSearch (getLogs_next s logs) qs)) logs \<and>
   set (filtered_logs (foldl onSearch (getLogs_next s logs) qs)) \<subseteq> set logs"
proof -
  let ?t = "foldl onSearch (getLogs_next s logs) qs"
  have all: "all_logs ?t = logs"
    by (simp add: foldl_onSearch_all_logs getLogs_next_def)
  have "subseq (filtered_logs (getLogs_next s logs)) (all_logs (getLogs_next s logs))"
    by (simp add: getLogs_next_def)
  then have "subseq (filtered_logs ?t) (all_logs ?t)"
    by (rule foldl_onSearch_subseq)
  then have sub: "subseq (filtered_logs ?t) logs"
    by (simp only: all)
  then have "set (filtered_logs ?t) \<subseteq> set logs"
    by (auto elim: list_emb_set)
  with all sub show ?thesis
    by simp
qed

section \<open>The equality test of line 49\<close>

text \<open>
  Claim C4 says that skipping the recomputation when the trimmed query equals the stored
  query never changes what is shown, compared with \<open>onSearch_recompute\<close>. The code does
  not achieve this: the short-query branch returns at line 47 with \<open>filtered_logs\<close> reset
  to the full list but \<open>searchQuery\<close> still holding the last long query. On the example
  logs the values \<open>error\<close>, \<open>er\<close>, \<open>error\<close> (which pass \<open>distinctUntilChanged\<close> unchanged)
  leave the full list on display, where recomputing gives the single matching entry.
\<close>

theorem onSearch_stale_query:
  "distinctUntilChanged [''error'', ''er'', ''error''] = [''error'', ''er'', ''error''] \<and>
   searchQuery (valueChanges scenario [''error'', ''er'']) = ''error'' \<and>
   filtered_logs (valueChanges scenario [''error'', ''er'', ''error'']) = scenario_logs \<and>
   filtered_logs (foldl onSearch_recompute scenario [''error'', ''er'', ''error'']) =
     [\<lparr>raw_log = ''ERROR disk full''\<rparr>]"
  by code_simp

section \<open>Repeating a query\<close>

text \<open>
  Claim C5: for every state and every query, a second \<open>onSearch\<close> call with the same query
  leaves \<open>filtered_logs\<close> as the first call left it. (By \<open>onSearch_twice\<close> the whole state
  is the same.)
\<close>

theorem onSearch_repeated:
  "filtered_logs (onSearch (onSearch s q) q) = filtered_logs (onSearch s q)"
  by (simp only: onSearch_twice)

section \<open>Case folding\<close>

text \<open>
  As the claim is worded, every accepted query gives the same result as its lower-cased
  form. That fails where the lower-cased form is not itself accepted: with \<open>error\<close> as
  the stored query, \<open>ERROR\<close> with a space in front is accepted (its trimmed form differs
  from the stored query) and matches nothing, while its lower-cased form trims to the
  stored query, is turned away by the test of line 49 and leaves the earlier result.
\<close>

theorem onSearch_case_insensitive_counterexample:
  "3 \<le> length '' ERROR'' \<and>
   trim '' ERROR'' \<noteq> searchQuery (onSearch scenario ''error'') \<and>
   filtered_logs (onSearch (onSearch scenario ''error'') '' ERROR'') = [] \<and>
   filtered_logs (onSearch (onSearch scenario ''error'') (toLowerCase '' ERROR'')) =
     [\<lparr>raw_log = ''ERROR disk full''\<rparr>] \<and>
   filtered_logs (onSearch (onSearch scenario ''error'') '' ERROR'') \<noteq>
     filtered_logs (onSearch (onSearch scenario ''error'') (toLowerCase '' ERROR''))"
  by code_simp

text \<open>
  Claim C6, amended: matching ignores case. For a query that is accepted (length at least
  3, trimmed form different from the stored query) and whose lower-cased form is accepted
  as well, the result is the same as for the lower-cased query; in a component whose
  stored query is still the initial empty string the second condition follows from the
  first. For every accepted query the entries kept are exactly those whose lower-cased
  \<open>raw_log\<close> contains the lower-cased query as a contiguous run, so lower-casing is the
  only normalisation of either side. On the one-entry list \<open>ErrorFoo\<close> both \<open>foo\<close> and
  \<open>FOO\<close> keep the entry.
\<close>

theorem onSearch_case_insensitive:
  "(3 \<le> length q \<longrightarrow> trim q \<noteq> searchQuery s \<longrightarrow> trim (toLowerCase q) \<noteq> searchQuery s \<longrightarrow>
      filtered_logs (onSearch s q) = filtered_logs (onSearch s (toLowerCase q))) \<and>
   (3 \<le> length q \<longrightarrow> trim q \<noteq> [] \<longrightarrow> searchQuery s = [] \<longrightarrow>
      filtered_logs (onSearch s q) = filtered_logs (onSearch s (toLowerCase q))) \<and>
   (3 \<le> length q \<longrightarrow> trim q \<noteq> searchQuery s \<longrightarrow>
      filtered_logs (onSearch s q) =
        filter (\<lambda>r. \<exists>ps ss. toLowerCase (raw_log r) = ps @ toLowerCase q @ ss) (all_logs s)) \<and>
   filtered_logs (onSearch errorFoo_component ''foo'') = [\<lparr>raw_log = ''ErrorFoo''\<rparr>] \<and>
   filtered_logs (onSearch errorFoo_component ''FOO'') = [\<lparr>raw_log = ''ErrorFoo''\<rparr>]"
proof -
  have both: "filtered_logs (onSearch s q) = filtered_logs (onSearch s (toLowerCase q))"
    if len: "3 \<le> length q" and new: "trim q \<noteq> searchQuery s"
      and new': "trim (toLowerCase q) \<noteq> searchQuery s"
  proof -
    have "3 \<le> length (toLowerCase q)"
      using len by (simp add: length_toLowerCase)
    then have "filtered_logs (onSearch s (toLowerCase q)) =
        filter (\<lambda>log. includes_js (toLowerCase (raw_log log)) (toLowerCase q)) (all_logs s)"
      using new' by (simp add: onSearch_new toLowerCase_idem)
    moreover have "filtered_logs (onSearch s q) =
        filter (\<lambda>log. includes_js (toLowerCase (raw_log log)) (toLowerCase q)) (all_logs s)"
      using len new by (simp add: onSearch_new)
    ultimately show ?thesis
      by simp
  qed
  have fresh: "filtered_logs (onSearch s q) = filtered_logs (onSearch s (toLowerCase q))"
    if len: "3 \<le> length q" and new: "trim q \<noteq> []" and init: "searchQuery s = []"
  proof -
    have "trim (toLowerCase q) \<noteq> searchQuery s"
      using new init by (simp add: trim_toLowerCase_Nil)
    with len new init show ?thesis
      by (simp add: both)
  qed
  have exact: "filtered_logs (onSearch s q) =
        filter (\<lambda>r. \<exists>ps ss. toLowerCase (raw_log r) = ps @ toLowerCase q @ ss) (all_logs s)"
    if "3 \<le> length q" and "trim q \<noteq> searchQuery s"
    using that by (simp add: onSearch_new includes_js_iff)
  have lower: "filtered_logs (onSearch errorFoo_component ''foo'') = [\<lparr>raw_log = ''ErrorFoo''\<rparr>]"
    by code_simp
  have upper: "filtered_logs (onSearch errorFoo_component ''FOO'') = [\<lparr>raw_log = ''ErrorFoo''\<rparr>]"
    by code_simp
  from both fresh exact lower upper show ?thesis
    by blast
qed

theorem onSearch_case_insensitive_witness:
  "3 \<le> length ''Info'' \<and> trim ''Info'' \<noteq> searchQuery scenario \<and>
   trim (toLowerCase ''Info'') \<noteq> searchQuery scenario \<and>
   toLowerCase ''Info'' = ''info'' \<and>
   filtered_logs (onSearch scenario ''info'') =
     [\<lparr>raw_log = ''INFO start''\<rparr>, \<lparr>raw_log = ''INFO stop''\<rparr>] \<and>
   filtered_logs (onSearch scenario ''Info'') =
     [\<lparr>raw_log = ''INFO start''\<rparr>, \<lparr>raw_log = ''INFO stop''\<rparr>]"
proof -
  have len: "3 \<le> length ''Info''"
    by simp
  have new: "trim ''Info'' \<noteq> searchQuery scenario"
    by code_simp
  have new': "trim (toLowerCase ''Info'') \<noteq> searchQuery scenario"
    by code_simp
  have low: "toLowerCase ''Info'' = ''info''"
    by code_simp
  have info: "filtered_logs (onSearch scenario ''info'') =
      [\<lparr>raw_log = ''INFO start''\<rparr>, \<lparr>raw_log = ''INFO stop''\<rparr>]"
    by code_simp
  have "filtered_logs (onSearch scenario ''Info'') =
        filtered_logs (onSearch scenario (toLowerCase ''Info''))"
    using onSearch_case_insensitive [of "''Info''" scenario] len new new' by blast
  then have "filtered_logs (onSearch scenario ''Info'') =
      [\<lparr>raw_log = ''INFO start''\<rparr>, \<lparr>raw_log = ''INFO stop''\<rparr>]"
    by (simp only: low info)
  with len new new' low info show ?thesis
    by simp
qed

section \<open>What \<open>onSearch\<close> and the load handler write\<close>

text \<open>
  Claim C7: for every state and query, \<open>onSearch\<close> leaves \<open>all_logs\<close>, \<open>isLoading\<close> and
  \<open>title\<close> as they were; \<open>filtered_logs\<close> and \<open>searchQuery\<close> are the only fields it may
  change.
\<close>

theorem onSearch_frame:
  "all_logs (onSearch s q) = all_logs s \<and>
   isLoading (onSearch s q) = isLoading s \<and>
   title (onSearch s q) = title s \<and>
   onSearch s q = s\<lparr>searchQuery := searchQuery (onSearch s q),
                     filtered_logs := filtered_logs (onSearch s q)\<rparr>"
  by (simp add: onSearch_def Let_def)

text \<open>
  Claim C8: when the fetch delivers \<open>logs\<close>, the handler sets both \<open>all_logs\<close> and
  \<open>filtered_logs\<close> to \<open>logs\<close> and sets \<open>isLoading\<close> to false, whatever the state before.
\<close>

theorem getLogs_next_loaded:
  "all_logs (getLogs_next s logs) = logs \<and>
   filtered_logs (getLogs_next s logs) = logs \<and>
   isLoading (getLogs_next s logs) = False"
  by (simp add: getLogs_next_def)

section \<open>The stored query\<close>

text \<open>
  Claim C9: starting from a state whose \<open>searchQuery\<close> is the initial empty string, after
  any sequence of \<open>onSearch\<close> calls \<open>searchQuery\<close> is the empty string or has length (as
  entered) at least 3; and in any state a query taken by the short-query branch leaves
  \<open>searchQuery\<close> as it was.
\<close>

theorem searchQuery_never_short:
  "(searchQuery s = [] \<longrightarrow>
      searchQuery (foldl onSearch s qs) = [] \<or> 3 \<le> length (searchQuery (foldl onSearch s qs))) \<and>
   (length q < 3 \<longrightarrow> searchQuery (onSearch t q) = searchQuery t)"
proof -
  have "searchQuery (foldl onSearch s qs) = [] \<or> 3 \<le> length (searchQuery (foldl onSearch s qs))"
    if "searchQuery s = []"
    using that by (intro foldl_onSearch_searchQuery_inv) simp
  moreover have "searchQuery (onSearch t q) = searchQuery t" if "length q < 3"
    using that by (simp add: onSearch_short)
  ultimately show ?thesis
    by blast
qed

theorem searchQuery_never_short_witness:
  "searchQuery scenario = [] \<and> length ''er'' < 3 \<and>
   searchQuery (foldl onSearch scenario [''error'', ''er'']) = ''error'' \<and>
   3 \<le> length (searchQuery (foldl onSearch scenario [''error'', ''er''])) \<and>
   searchQuery (onSearch (onSearch scenario ''error'') ''er'') =
     searchQuery (onSearch scenario ''error'')"
proof -
  have init: "searchQuery scenario = []"
    by (simp add: getLogs_next_def ngOnInit_def LogsComponent_new_def)
  have len: "length ''er'' < 3"
    by simp
  have val: "searchQuery (foldl onSearch scenario [''error'', ''er'']) = ''error''"
    by code_simp
  note inst =
    searchQuery_never_short [of scenario "[''error'', ''er'']" "''er''" "onSearch scenario ''error''"]
  from inst init val have "3 \<le> length (searchQuery (foldl onSearch scenario [''error'', ''er'']))"
    by simp
  moreover from inst len
  have "searchQuery (onSearch (onSearch scenario ''error'') ''er'') =
        searchQuery (onSearch scenario ''error'')"
    by blast
  ultimately show ?thesis
    using init len val by simp
qed

section \<open>White space in the query\<close>

text \<open>
  Claim C10: white space in an accepted query counts. When \<open>onSearch\<close> recomputes, it
  stores the query as entered and tests for that string, lower-cased but not trimmed. So
  there are a list and a query with a leading space for which the result differs from
  that of the trimmed query: \<open>abc\<close> with a space in front matches nothing in the one-entry
  list \<open>xabc\<close>, while \<open>abc\<close>, its trimmed form, matches the entry.
\<close>

theorem onSearch_whitespace_significant:
  "(3 \<le> length q \<longrightarrow> trim q \<noteq> searchQuery s \<longrightarrow>
      searchQuery (onSearch s q) = q \<and>
      filtered_logs (onSearch s q) =
        filter (\<lambda>r. includes_js (toLowerCase (raw_log r)) (toLowerCase q)) (all_logs s)) \<and>
   trim '' abc'' = ''abc'' \<and>
   filtered_logs (onSearch xabc_component '' abc'') = [] \<and>
   filtered_logs (onSearch xabc_component ''abc'') = [\<lparr>raw_log = ''xabc''\<rparr>]"
proof -
  have "searchQuery (onSearch s q) = q \<and>
      filtered_logs (onSearch s q) =
        filter (\<lambda>r. includes_js (toLowerCase (raw_log r)) (toLowerCase q)) (all_logs s)"
    if "3 \<le> length q" and "trim q \<noteq> searchQuery s"
    using that by (simp add: onSearch_new)
  moreover have "trim '' abc'' = ''abc''"
    by code_simp
  moreover have "filtered_logs (onSearch xabc_component '' abc'') = []"
    by code_simp
  moreover have "filtered_logs (onSearch xabc_component ''abc'') = [\<lparr>raw_log = ''xabc''\<rparr>]"
    by code_simp
  ultimately show ?thesis
    by blast
qed

theorem onSearch_whitespace_significant_witness:
  "3 \<le> length ''full '' \<and> trim ''full '' \<noteq> searchQuery scenario \<and>
   searchQuery (onSearch scenario ''full '') = ''full '' \<and>
   filtered_logs (onSearch scenario ''full '') = [] \<and>
   filtered_logs (onSearch scenario (trim ''full '')) = [\<lparr>raw_log = ''ERROR disk full''\<rparr>]"
proof -
  have len: "3 \<le> length ''full ''"
    by simp
  have new: "trim ''full '' \<noteq> searchQuery scenario"
    by code_simp
  have "searchQuery (onSearch scenario ''full '') = ''full '' \<and>
      filtered_logs (onSearch scenario ''full '') =
        filter (\<lambda>r. includes_js (toLowerCase (raw_log r)) (toLowerCase ''full '')) (all_logs scenario)"
    using onSearch_whitespace_significant [of "''full ''" scenario] len new by blast
  moreover have
    "filter (\<lambda>r. includes_js (toLowerCase (raw_log r)) (toLowerCase ''full '')) (all_logs scenario) = []"
    by code_simp
  moreover have
    "filtered_logs (onSearch scenario (trim ''full '')) = [\<lparr>raw_log = ''ERROR disk full''\<rparr>]"
    by code_simp
  ultimately show ?thesis
    using len new by simp
qed

end
